theory Spec2Isabelle
  imports Main "HOL-Library.Sublist"
begin

section \<open>Loyalty Drift Dashboard: the drift comparator of app.js\<close>

text \<open>
  The development embeds \<^verbatim>\<open>compareEvents\<close> (app.js, lines 80-135), the constant
  \<^verbatim>\<open>DRIFT_FIELDS\<close>, the helper \<^verbatim>\<open>safeParse\<close>, \<^verbatim>\<open>renderSummary\<close> and the click handler
  of the "Check for Drift" button, and proves the properties of the specification
  about them.
\<close>

subsection \<open>JavaScript values\<close>

text \<open>
  An event is what \<^verbatim>\<open>JSON.parse\<close> returns for an object literal with scalar members: a
  finite mapping from property names to JSON scalars. Numbers are modelled as integers
  (the integer literals a double holds exactly, which is all the scenarios use);
  \<^verbatim>\<open>JSON.parse\<close> never yields \<^verbatim>\<open>NaN\<close> or \<^verbatim>\<open>undefined\<close>. Strings are lists of bytes (UTF-8).
  Nested objects and arrays as member values are outside the specification's records
  and are not modelled. The value \<^verbatim>\<open>undefined\<close> of a property read is \<open>None\<close>.
\<close>

datatype scalar = JNull | JBoolean bool | JNumber int | JString string

type_synonym event = "string \<rightharpoonup> scalar"

text \<open>
  What the comparator can be handed at top level: \<^verbatim>\<open>null\<close> (the text \<^verbatim>\<open>null\<close> parses) or an
  object. Probing a property of \<^verbatim>\<open>null\<close> throws a \<^verbatim>\<open>TypeError\<close>.
\<close>

datatype jsvalue = JSNull | JSObject event

datatype js_error = TypeError

definition bind_err :: "js_error + 'a \<Rightarrow> ('a \<Rightarrow> js_error + 'b) \<Rightarrow> js_error + 'b" where
  "bind_err m f = (case m of Inl e \<Rightarrow> Inl e | Inr x \<Rightarrow> f x)"

text \<open>\<^verbatim>\<open>Object.prototype.hasOwnProperty.call(v, field)\<close>\<close>

definition hasOwnProperty :: "jsvalue \<Rightarrow> string \<Rightarrow> js_error + bool" where
  "hasOwnProperty v field =
     (case v of JSNull \<Rightarrow> Inl TypeError | JSObject m \<Rightarrow> Inr (m field \<noteq> None))"

text \<open>\<^verbatim>\<open>v[field]\<close>, read by the comparator only where the property is an own property.\<close>

definition getProp :: "jsvalue \<Rightarrow> string \<Rightarrow> js_error + scalar option" where
  "getProp v field = (case v of JSNull \<Rightarrow> Inl TypeError | JSObject m \<Rightarrow> Inr (m field))"

text \<open>
  Strict equality \<^verbatim>\<open>===\<close> (IsStrictlyEqual): values of different types are never
  equal; within a type the values are compared. No conversion takes place.
\<close>

fun strictEquals :: "scalar option \<Rightarrow> scalar option \<Rightarrow> bool" where
  "strictEquals None None = True"
| "strictEquals (Some JNull) (Some JNull) = True"
| "strictEquals (Some (JBoolean a)) (Some (JBoolean b)) = (a = b)"
| "strictEquals (Some (JNumber a)) (Some (JNumber b)) = (a = b)"
| "strictEquals (Some (JString a)) (Some (JString b)) = (a = b)"
| "strictEquals _ _ = False"

subsection \<open>Conversion to string in template literals\<close>

definition digitChar :: "nat \<Rightarrow> char" where
  "digitChar d = ''0123456789'' ! d"

function natToString :: "nat \<Rightarrow> string" where
  "natToString n =
     (if n < 10 then [digitChar n] else natToString (n div 10) @ [digitChar (n mod 10)])"
  by pat_completeness auto
termination
  by (relation "measure id") auto

declare natToString.simps [simp del]

text \<open>\<^verbatim>\<open>Number.prototype.toString\<close> on an integer (decimal digits, below \<open>10^21\<close>).\<close>

definition numberToString :: "int \<Rightarrow> string" where
  "numberToString n = (if n < 0 then ''-'' @ natToString (nat (- n)) else natToString (nat n))"

text \<open>\<^verbatim>\<open>${x}\<close>: ToString of a value.\<close>

fun toString :: "scalar option \<Rightarrow> string" where
  "toString None = ''undefined''"
| "toString (Some JNull) = ''null''"
| "toString (Some (JBoolean b)) = (if b then ''true'' else ''false'')"
| "toString (Some (JNumber n)) = numberToString n"
| "toString (Some (JString s)) = s"

text \<open>The double quote, and the arrow U+2192 of the drift message in UTF-8.\<close>

definition dq :: string where
  "dq = [CHR 0x22]"

definition arrow :: string where
  "arrow = [CHR 0xE2, CHR 0x86, CHR 0x92]"

subsection \<open>Issues and reports\<close>

datatype issue_type = Removed | Added | Changed

record issue =
  i_field :: string
  i_type :: issue_type
  i_from :: "scalar option"
  i_to :: "scalar option"
  i_message :: string

datatype level = Low | Medium | High

text \<open>
  The object \<^verbatim>\<open>{ issues, driftLevel }\<close>. The type of the entries of \<open>issues\<close> is a
  parameter because the click handler also builds such an object with entries \<^verbatim>\<open>{}\<close>.
\<close>

record 'i result =
  issues :: "'i list"
  driftLevel :: level

type_synonym report = "issue result"

subsection \<open>The comparator\<close>

definition DRIFT_FIELDS :: "string list" where
  "DRIFT_FIELDS =
     [''partnerId'', ''tier'', ''segment'', ''promoCode'', ''campaignId'',
      ''score'', ''spend'', ''currency'', ''category'']"

text \<open>
  The callback of \<^verbatim>\<open>DRIFT_FIELDS.forEach\<close> (lines 83-123). Its state is the array
  \<open>issues\<close>; \<^verbatim>\<open>push\<close> appends at the end.
\<close>

definition driftField :: "jsvalue \<Rightarrow> jsvalue \<Rightarrow> issue list \<Rightarrow> string \<Rightarrow> js_error + issue list" where
  "driftField v1 v2 iss field =
     bind_err (hasOwnProperty v1 field) (\<lambda>has1.
     bind_err (hasOwnProperty v2 field) (\<lambda>has2.
       if has1 \<and> \<not> has2 then
         bind_err (getProp v1 field) (\<lambda>x.
           Inr (iss @ [\<lparr> i_field = field, i_type = Removed, i_from = x, i_to = None,
                  i_message = ''Field removed in v2: '' @ field @ '' (was '' @ dq @ toString x @ dq @ '')'' \<rparr>]))
       else if \<not> has1 \<and> has2 then
         bind_err (getProp v2 field) (\<lambda>y.
           Inr (iss @ [\<lparr> i_field = field, i_type = Added, i_from = None, i_to = y,
                  i_message = ''Field added in v2: '' @ field @ '' (now '' @ dq @ toString y @ dq @ '')'' \<rparr>]))
       else if has1 \<and> has2 then
         bind_err (getProp v1 field) (\<lambda>val1.
         bind_err (getProp v2 field) (\<lambda>val2.
           if \<not> strictEquals val1 val2 then
             Inr (iss @ [\<lparr> i_field = field, i_type = Changed, i_from = val1, i_to = val2,
                    i_message = ''Value drift in '' @ field @ '': v1='' @ dq @ toString val1 @ dq
                                @ '' '' @ arrow @ '' v2='' @ dq @ toString val2 @ dq \<rparr>])
           else Inr iss))
       else Inr iss))"

text \<open>\<^verbatim>\<open>forEach\<close> with a callback that may throw: the first exception ends the loop.\<close>

fun forEach :: "('s \<Rightarrow> 'a \<Rightarrow> js_error + 's) \<Rightarrow> 'a list \<Rightarrow> 's \<Rightarrow> js_error + 's" where
  "forEach f [] s = Inr s"
| "forEach f (x # xs) s = (case f s x of Inl e \<Rightarrow> Inl e | Inr s' \<Rightarrow> forEach f xs s')"

text \<open>
  The body of \<^verbatim>\<open>compareEvents\<close> with the list of tracked fields as a parameter, and
  \<^verbatim>\<open>compareEvents\<close> itself, which reads the constant \<^verbatim>\<open>DRIFT_FIELDS\<close>.
\<close>

definition compareFields :: "string list \<Rightarrow> jsvalue \<Rightarrow> jsvalue \<Rightarrow> js_error + report" where
  "compareFields trackedFields v1 v2 =
     bind_err (forEach (driftField v1 v2) trackedFields []) (\<lambda>iss.
       let count = length iss;
           lvl = (if count \<ge> 2 \<and> count \<le> 4 then Medium
                  else if count > 4 then High
                  else Low)
       in Inr \<lparr> issues = iss, driftLevel = lvl \<rparr>)"

definition compareEvents :: "jsvalue \<Rightarrow> jsvalue \<Rightarrow> js_error + report" where
  "compareEvents v1 v2 = compareFields DRIFT_FIELDS v1 v2"

text \<open>
  One round of the loop on two objects, in closed form: the entries the callback pushes
  for \<open>field\<close> (none or one). Lemma \<open>driftField_object\<close> proves that the callback
  does exactly this.
\<close>

definition fieldIssues :: "event \<Rightarrow> event \<Rightarrow> string \<Rightarrow> issue list" where
  "fieldIssues A B field =
     (case (A field, B field) of
        (Some a, None) \<Rightarrow>
          [\<lparr> i_field = field, i_type = Removed, i_from = Some a, i_to = None,
             i_message = ''Field removed in v2: '' @ field @ '' (was '' @ dq @ toString (Some a) @ dq @ '')'' \<rparr>]
      | (None, Some b) \<Rightarrow>
          [\<lparr> i_field = field, i_type = Added, i_from = None, i_to = Some b,
             i_message = ''Field added in v2: '' @ field @ '' (now '' @ dq @ toString (Some b) @ dq @ '')'' \<rparr>]
      | (Some a, Some b) \<Rightarrow>
          (if a = b then []
           else [\<lparr> i_field = field, i_type = Changed, i_from = Some a, i_to = Some b,
                   i_message = ''Value drift in '' @ field @ '': v1='' @ dq @ toString (Some a) @ dq
                               @ '' '' @ arrow @ '' v2='' @ dq @ toString (Some b) @ dq \<rparr>])
      | (None, None) \<Rightarrow> [])"

subsection \<open>The predefined scenarios\<close>

text \<open>
  The objects that \<^verbatim>\<open>JSON.parse\<close> returns for the texts \<^verbatim>\<open>SCENARIOS.scenario1.v1\<close>,
  \<^verbatim>\<open>SCENARIOS.scenario1.v2\<close>, \<^verbatim>\<open>SCENARIOS.scenario2.v1\<close> and \<^verbatim>\<open>SCENARIOS.scenario2.v2\<close>.
\<close>

definition scenario1_v1 :: event where
  "scenario1_v1 = map_of
     [(''partnerId'', JString ''PartnerA''), (''tier'', JString ''Gold''),
      (''segment'', JString ''HighValue''), (''promoCode'', JString ''SPRING10''),
      (''campaignId'', JString ''CAMP123''), (''score'', JNumber 82),
      (''spend'', JNumber 120), (''currency'', JString ''USD''),
      (''category'', JString ''Electronics'')]"

definition scenario1_v2 :: event where
  "scenario1_v2 = map_of
     [(''partnerId'', JString ''partner-a''), (''tier'', JString ''Platinum''),
      (''segment'', JString ''HighValue''), (''promoCode'', JString ''SPRING20''),
      (''campaignId'', JString ''CAMP123''), (''score'', JNumber 76),
      (''spend'', JNumber 120), (''currency'', JString ''USD''),
      (''category'', JString ''Electronics-Devices'')]"

definition scenario2_v1 :: event where
  "scenario2_v1 = map_of
     [(''partnerId'', JString ''PartnerB''), (''tier'', JString ''Silver''),
      (''segment'', JString ''New''), (''promoCode'', JString ''WELCOME5''),
      (''campaignId'', JString ''CAMP200''), (''score'', JNumber 60),
      (''spend'', JNumber 45), (''currency'', JString ''USD''),
      (''category'', JString ''Grocery'')]"

definition scenario2_v2 :: event where
  "scenario2_v2 = map_of
     [(''partnerId'', JString ''PartnerB''), (''tier'', JString ''Gold''),
      (''segment'', JString ''New''), (''promoCode'', JString ''WELCOME5''),
      (''campaignId'', JString ''CAMP200''), (''score'', JNumber 68),
      (''spend'', JNumber 45), (''currency'', JString ''USD''),
      (''category'', JString ''Grocery-Fresh'')]"

subsection \<open>The click handler of the "Check for Drift" button\<close>

text \<open>
  \<^verbatim>\<open>safeParse\<close> returns \<^verbatim>\<open>{ ok: true, value }\<close> or \<^verbatim>\<open>{ ok: false, error }\<close>. \<^verbatim>\<open>JSON.parse\<close> is
  the engine's; it is a parameter here, \<open>Inl\<close> carrying the message of the exception it
  throws.
\<close>

datatype parsed = ParseOk jsvalue | ParseError string

definition safeParse :: "(string \<Rightarrow> string + jsvalue) \<Rightarrow> string \<Rightarrow> parsed" where
  "safeParse JSON_parse jsonText =
     (case JSON_parse jsonText of Inr v \<Rightarrow> ParseOk v | Inl m \<Rightarrow> ParseError m)"

fun ok :: "parsed \<Rightarrow> bool" where
  "ok (ParseOk v) = True"
| "ok (ParseError m) = False"

definition nl :: string where
  "nl = [CHR 0x0A]"

text \<open>The middle dot U+00B7 of the summary badge, in UTF-8.\<close>

definition middot :: string where
  "middot = [CHR 0xC2, CHR 0xB7]"

definition levelName :: "level \<Rightarrow> string" where
  "levelName l = (case l of Low \<Rightarrow> ''Low'' | Medium \<Rightarrow> ''Medium'' | High \<Rightarrow> ''High'')"

text \<open>
  \<^verbatim>\<open>renderSummary\<close> empties the element \<^verbatim>\<open>#summary\<close> and appends one badge; the badge is
  the result here. It reads \<^verbatim>\<open>result.issues.length\<close> and \<^verbatim>\<open>result.driftLevel\<close> only.
\<close>

datatype badge_content = TextContent string | InnerHTML string

record badge =
  className :: string
  content :: badge_content

definition renderSummary :: "'i result option \<Rightarrow> badge" where
  "renderSummary result =
     (case result of
        None \<Rightarrow>
          \<lparr> className = ''summary-badge summary-badge-ok'',
            content = TextContent ''No drift detected for tracked fields.'' \<rparr>
      | Some r \<Rightarrow>
          if length (issues r) = 0 then
            \<lparr> className = ''summary-badge summary-badge-ok'',
              content = TextContent ''No drift detected for tracked fields.'' \<rparr>
          else
            \<lparr> className = ''summary-badge summary-badge-fail'',
              content = InnerHTML
                (nl @ ''      Drift Level: <span class='' @ dq @ ''count'' @ dq @ ''>''
                    @ levelName (driftLevel r) @ ''</span>'' @ nl
                    @ ''      '' @ middot @ '' Issues: <span class='' @ dq @ ''count'' @ dq @ ''>''
                    @ natToString (length (issues r)) @ ''</span>'' @ nl @ ''    '') \<rparr>)"

text \<open>
  \<^verbatim>\<open>String.prototype.trim\<close> on a byte string: the ASCII white space and line
  terminators (tab, line feed, vertical tab, form feed, carriage return, space).
\<close>

definition isWhiteSpace :: "char \<Rightarrow> bool" where
  "isWhiteSpace c = (c \<in> set [CHR 0x09, CHR 0x0A, CHR 0x0B, CHR 0x0C, CHR 0x0D, CHR 0x20])"

definition trim :: "string \<Rightarrow> string" where
  "trim s = rev (dropWhile isWhiteSpace (rev (dropWhile isWhiteSpace s)))"

text \<open>
  What one click does, in order: the texts it assigns to \<^verbatim>\<open>#drift-status\<close> and
  \<^verbatim>\<open>#raw-output\<close>, the badge \<^verbatim>\<open>renderSummary\<close> leaves in \<^verbatim>\<open>#summary\<close>, its calls of
  \<^verbatim>\<open>renderDetails\<close> and of \<^verbatim>\<open>compareEvents\<close> (with their arguments), and an exception
  that leaves the handler.
\<close>

datatype ui_effect =
    StatusText string
  | RawOutputText string
  | SummaryBadge badge
  | RenderDetails "report option"
  | CompareEvents jsvalue jsvalue
  | Uncaught js_error

text \<open>
  The listener (lines 314-343); \<open>value1\<close> and \<open>value2\<close> are the contents of the two
  text areas.
\<close>

definition errorLine :: "string \<Rightarrow> parsed \<Rightarrow> string" where
  "errorLine side p =
     (case p of ParseOk v \<Rightarrow> [] | ParseError m \<Rightarrow> ''- Event '' @ side @ '': '' @ m @ nl)"

definition checkDrift :: "(string \<Rightarrow> string + jsvalue) \<Rightarrow> string \<Rightarrow> string \<Rightarrow> ui_effect list" where
  "checkDrift JSON_parse value1 value2 =
     (let raw1 = value1; raw2 = value2 in
      if raw1 = [] \<or> raw2 = [] then
        [StatusText ''Please select a scenario first; events are empty.'',
         SummaryBadge (renderSummary (None :: report option)),
         RenderDetails None]
      else
        let parsed1 = safeParse JSON_parse raw1;
            parsed2 = safeParse JSON_parse raw2
        in
          (case (parsed1, parsed2) of
             (ParseOk val1, ParseOk val2) \<Rightarrow>
               (case compareEvents val1 val2 of
                  Inl e \<Rightarrow> [CompareEvents val1 val2, Uncaught e]
                | Inr result \<Rightarrow>
                    [CompareEvents val1 val2,
                     StatusText ''Drift calculation complete.'',
                     SummaryBadge (renderSummary (Some result)),
                     RenderDetails (Some result)])
           | _ \<Rightarrow>
               (let msg = ''Error parsing JSON:'' @ nl @ errorLine ''v1'' parsed1 @ errorLine ''v2'' parsed2
                in [StatusText ''JSON parsing error.'',
                    RawOutputText (trim msg),
                    SummaryBadge (renderSummary (Some \<lparr> issues = [(), ()], driftLevel = Low \<rparr>))])))"

text \<open>A stand-in for \<^verbatim>\<open>JSON.parse\<close> on three texts, for running the handler.\<close>

definition stub_JSON_parse :: "string \<Rightarrow> string + jsvalue" where
  "stub_JSON_parse t =
     (if t = ''{}'' then Inr (JSObject Map.empty)
      else if t = ''null'' then Inr JSNull
      else Inl ''Unexpected end of JSON input'')"

subsection \<open>The specification's notions\<close>

text \<open>
  The following definitions are written from the specification's words, to be compared
  with the code above.

  \<open>dictated A B f\<close>: the issue the presence pattern of field \<open>f\<close> dictates (kind, from,
  to), if any. Values are unequal when they differ as values: a number is never equal to
  a string.
\<close>

definition dictated :: "event \<Rightarrow> event \<Rightarrow> string \<Rightarrow> (issue_type \<times> scalar option \<times> scalar option) option" where
  "dictated A B f =
     (case (A f, B f) of
        (Some a, None) \<Rightarrow> Some (Removed, Some a, None)
      | (None, Some b) \<Rightarrow> Some (Added, None, Some b)
      | (Some a, Some b) \<Rightarrow> (if a = b then None else Some (Changed, Some a, Some b))
      | (None, None) \<Rightarrow> None)"

definition dictatedIssues :: "event \<Rightarrow> event \<Rightarrow> string \<Rightarrow> (string \<times> issue_type \<times> scalar option \<times> scalar option) list" where
  "dictatedIssues A B f =
     (case dictated A B f of None \<Rightarrow> [] | Some (k, x, y) \<Rightarrow> [(f, k, x, y)])"

text \<open>The data of an issue without its message.\<close>

definition issueData :: "issue \<Rightarrow> string \<times> issue_type \<times> scalar option \<times> scalar option" where
  "issueData i = (i_field i, i_type i, i_from i, i_to i)"

text \<open>Records \<open>A\<close> and \<open>B\<close> disagree on \<open>f\<close> in presence or in value.\<close>

definition disagree :: "event \<Rightarrow> event \<Rightarrow> string \<Rightarrow> bool" where
  "disagree A B f =
     (case (A f, B f) of
        (None, None) \<Rightarrow> False
      | (Some a, Some b) \<Rightarrow> a \<noteq> b
      | _ \<Rightarrow> True)"

text \<open>The severity of \<open>n\<close> issues.\<close>

definition severity :: "nat \<Rightarrow> level" where
  "severity n = (if n < 2 then Low else if n \<le> 4 then Medium else High)"

text \<open>The labels \<open>added\<close> and \<open>removed\<close> exchanged.\<close>

fun swapped :: "issue_type \<Rightarrow> issue_type" where
  "swapped Removed = Added"
| "swapped Added = Removed"
| "swapped Changed = Changed"

text \<open>The message of an issue as a function of its field, kind, from and to.\<close>

definition messageOf :: "string \<Rightarrow> issue_type \<Rightarrow> scalar option \<Rightarrow> scalar option \<Rightarrow> string" where
  "messageOf f k x y =
     (case k of
        Removed \<Rightarrow> ''Field removed in v2: '' @ f @ '' (was '' @ dq @ toString x @ dq @ '')''
      | Added \<Rightarrow> ''Field added in v2: '' @ f @ '' (now '' @ dq @ toString y @ dq @ '')''
      | Changed \<Rightarrow> ''Value drift in '' @ f @ '': v1='' @ dq @ toString x @ dq
                    @ '' '' @ arrow @ '' v2='' @ dq @ toString y @ dq)"

text \<open>An issue is well-formed for its kind.\<close>

definition wellFormed :: "issue \<Rightarrow> bool" where
  "wellFormed i =
     (case i_type i of
        Removed \<Rightarrow> i_from i \<noteq> None \<and> i_to i = None
      | Added \<Rightarrow> i_from i = None \<and> i_to i \<noteq> None
      | Changed \<Rightarrow> i_from i \<noteq> None \<and> i_to i \<noteq> None \<and> i_from i \<noteq> i_to i)"

text \<open>
  An effect of the handler that calls the comparator, and one that displays a drift
  report: a summary badge other than the badge of "no result", or a call of
  \<^verbatim>\<open>renderDetails\<close> with a result.
\<close>

fun comparatorInvoked :: "ui_effect \<Rightarrow> bool" where
  "comparatorInvoked (CompareEvents v1 v2) = True"
| "comparatorInvoked e = False"

fun rendersReport :: "ui_effect \<Rightarrow> bool" where
  "rendersReport (SummaryBadge b) = (b \<noteq> renderSummary (None :: report option))"
| "rendersReport (RenderDetails d) = (d \<noteq> None)"
| "rendersReport e = False"

text \<open>
  A valid report over the tracked fields \<open>F\<close>: well-formed issues on fields of \<open>F\<close>,
  and the level that belongs to their number.
\<close>

definition validReport :: "string list \<Rightarrow> report \<Rightarrow> bool" where
  "validReport F r =
     (list_all wellFormed (issues r) \<and>
      set (map i_field (issues r)) \<subseteq> set F \<and>
      driftLevel r = severity (length (issues r)))"

section \<open>Properties\<close>

subsection \<open>The loop in closed form\<close>

lemma strictEquals_iff: "strictEquals x y \<longleftrightarrow> x = y"
  by (induction x y rule: strictEquals.induct) auto

lemma bind_err_Inr [simp]: "bind_err (Inr x) f = f x"
  by (simp add: bind_err_def)

lemma bind_err_Inl [simp]: "bind_err (Inl e) f = Inl e"
  by (simp add: bind_err_def)

lemma driftField_object:
  "driftField (JSObject A) (JSObject B) iss field = Inr (iss @ fieldIssues A B field)"
  by (cases "A field"; cases "B field")
     (simp_all add: driftField_def hasOwnProperty_def getProp_def fieldIssues_def strictEquals_iff)

lemma forEach_object:
  "forEach (driftField (JSObject A) (JSObject B)) F iss = Inr (iss @ concat (map (fieldIssues A B) F))"
  by (induction F arbitrary: iss) (simp_all add: driftField_object)

lemma level_rule:
  "(if (2::nat) \<le> n \<and> n \<le> 4 then Medium else if 4 < n then High else Low) = severity n"
  by (simp add: severity_def)

lemma compareFields_level:
  assumes "compareFields F v1 v2 = Inr r"
  shows "driftLevel r = severity (length (issues r))"
proof (cases "forEach (driftField v1 v2) F []")
  case (Inl e)
  with assms show ?thesis by (simp add: compareFields_def)
next
  case (Inr iss)
  with assms have "r = \<lparr> issues = iss, driftLevel = severity (length iss) \<rparr>"
    by (simp add: compareFields_def Let_def level_rule)
  then show ?thesis by simp
qed

lemma compareFields_object:
  "compareFields F (JSObject A) (JSObject B) =
     Inr \<lparr> issues = concat (map (fieldIssues A B) F),
           driftLevel = severity (length (concat (map (fieldIssues A B) F))) \<rparr>"
  by (simp add: compareFields_def forEach_object Let_def level_rule del: length_concat)

lemma compareFields_object_issues:
  assumes "compareFields F (JSObject A) (JSObject B) = Inr r"
  shows "issues r = concat (map (fieldIssues A B) F)"
  using assms by (auto simp add: compareFields_object)

lemma driftField_null1: "driftField JSNull v2 iss field = Inl TypeError"
  by (simp add: driftField_def hasOwnProperty_def)

lemma driftField_null2: "driftField v1 JSNull iss field = Inl TypeError"
  by (cases v1) (simp_all add: driftField_def hasOwnProperty_def)

lemma compareFields_Inr_cases:
  assumes "compareFields F v1 v2 = Inr r"
  shows "F = [] \<or> (\<exists>A B. v1 = JSObject A \<and> v2 = JSObject B)"
proof (cases F)
  case Nil
  then show ?thesis by simp
next
  case (Cons f fs)
  show ?thesis
  proof (cases v1)
    case JSNull
    with Cons assms show ?thesis
      by (simp add: compareFields_def driftField_null1)
  next
    case (JSObject A)
    then show ?thesis
    proof (cases v2)
      case JSNull
      with Cons assms show ?thesis
        by (simp add: compareFields_def driftField_null2)
    next
      case (JSObject B)
      with \<open>v1 = JSObject A\<close> show ?thesis by simp
    qed
  qed
qed

text \<open>The failure the comparator has on \<^verbatim>\<open>null\<close>: the first probe throws.\<close>

lemma compareFields_null1: "compareFields (f # F) JSNull v2 = Inl TypeError"
  by (simp add: compareFields_def driftField_null1)

lemma compareFields_null2: "compareFields (f # F) v1 JSNull = Inl TypeError"
  by (simp add: compareFields_def driftField_null2)

lemma compareFields_Nil: "compareFields [] v1 v2 = Inr \<lparr> issues = [], driftLevel = Low \<rparr>"
  by (simp add: compareFields_def)

subsection \<open>One round of the loop\<close>

lemma fieldIssues_data: "map issueData (fieldIssues A B f) = dictatedIssues A B f"
  by (cases "A f"; cases "B f")
     (simp_all add: fieldIssues_def dictatedIssues_def dictated_def issueData_def)

lemma fieldIssues_field: "map i_field (fieldIssues A B f) = (if disagree A B f then [f] else [])"
  by (cases "A f"; cases "B f") (simp_all add: fieldIssues_def disagree_def)

lemma fieldIssues_wellFormed: "i \<in> set (fieldIssues A B f) \<Longrightarrow> wellFormed i"
  by (cases "A f"; cases "B f") (auto simp: fieldIssues_def wellFormed_def split: if_splits)

lemma fieldIssues_message:
  "i \<in> set (fieldIssues A B f) \<Longrightarrow> i_message i = messageOf (i_field i) (i_type i) (i_from i) (i_to i)"
  by (cases "A f"; cases "B f") (auto simp: fieldIssues_def messageOf_def split: if_splits)

lemma fieldIssues_presence:
  "i \<in> set (fieldIssues A B f) \<Longrightarrow> i_field i = f \<and> i_from i = A f \<and> i_to i = B f"
  by (cases "A f"; cases "B f") (auto simp: fieldIssues_def split: if_splits)

lemma fieldIssues_swap:
  "map (\<lambda>i. (i_field i, i_type i, i_from i, i_to i)) (fieldIssues B A f) =
   map (\<lambda>i. (i_field i, swapped (i_type i), i_to i, i_from i)) (fieldIssues A B f)"
  by (cases "A f"; cases "B f") (auto simp: fieldIssues_def)

lemma fieldIssues_cong:
  "A' f = A f \<Longrightarrow> B' f = B f \<Longrightarrow> fieldIssues A' B' f = fieldIssues A B f"
  by (simp add: fieldIssues_def)

subsection \<open>The whole loop\<close>

lemma all_fields: "map i_field (concat (map (fieldIssues A B) F)) = filter (disagree A B) F"
  by (induction F) (simp_all add: fieldIssues_field)

lemma all_data: "map issueData (concat (map (fieldIssues A B) F)) = concat (map (dictatedIssues A B) F)"
  by (induction F) (simp_all add: fieldIssues_data)

lemma all_swap:
  "map (\<lambda>i. (i_field i, i_type i, i_from i, i_to i)) (concat (map (fieldIssues B A) F)) =
   map (\<lambda>i. (i_field i, swapped (i_type i), i_to i, i_from i)) (concat (map (fieldIssues A B) F))"
  by (induction F) (simp_all add: fieldIssues_swap)

lemma in_all_fields:
  "i \<in> set (concat (map (fieldIssues A B) F)) \<Longrightarrow> \<exists>f \<in> set F. i \<in> set (fieldIssues A B f)"
  by auto

lemma all_cong:
  assumes "\<forall>f \<in> set F. A' f = A f \<and> B' f = B f"
  shows "concat (map (fieldIssues A' B') F) = concat (map (fieldIssues A B) F)"
proof -
  have "map (fieldIssues A' B') F = map (fieldIssues A B) F"
    using assms by (intro map_cong refl fieldIssues_cong) auto
  then show ?thesis by (rule arg_cong)
qed

lemma count_filter: "length (filter (\<lambda>x. x = f) (filter P F)) = (if P f then count_list F f else 0)"
  by (induction F) auto

subsection \<open>The click handler on a parse failure\<close>

lemma safeParse_Inl: "JSON_parse t = Inl m \<Longrightarrow> safeParse JSON_parse t = ParseError m"
  by (simp add: safeParse_def)

lemma safeParse_Inr: "JSON_parse t = Inr v \<Longrightarrow> safeParse JSON_parse t = ParseOk v"
  by (simp add: safeParse_def)

lemma errorLine_v1:
  "errorLine ''v1'' (safeParse JSON_parse t) =
     (case JSON_parse t of Inl m \<Rightarrow> ''- Event v1: '' @ m @ nl | Inr v \<Rightarrow> [])"
  by (cases "JSON_parse t") (simp_all add: errorLine_def safeParse_def)

lemma errorLine_v2:
  "errorLine ''v2'' (safeParse JSON_parse t) =
     (case JSON_parse t of Inl m \<Rightarrow> ''- Event v2: '' @ m @ nl | Inr v \<Rightarrow> [])"
  by (cases "JSON_parse t") (simp_all add: errorLine_def safeParse_def)

lemma placeholder_badge:
  "renderSummary (Some \<lparr> issues = [(), ()], driftLevel = Low \<rparr>) =
     \<lparr> className = ''summary-badge summary-badge-fail'',
       content = InnerHTML
         (nl @ ''      Drift Level: <span class='' @ dq @ ''count'' @ dq @ ''>Low</span>'' @ nl
             @ ''      '' @ middot @ '' Issues: <span class='' @ dq @ ''count'' @ dq @ ''>2</span>'' @ nl
             @ ''    '') \<rparr>"
  by (simp add: renderSummary_def levelName_def natToString.simps digitChar_def)

lemma checkDrift_parse_failure:
  assumes "value1 \<noteq> []" and "value2 \<noteq> []"
    and "isl (JSON_parse value1) \<or> isl (JSON_parse value2)"
  shows "checkDrift JSON_parse value1 value2 =
           [StatusText ''JSON parsing error.'',
            RawOutputText (trim (''Error parsing JSON:'' @ nl
               @ errorLine ''v1'' (safeParse JSON_parse value1)
               @ errorLine ''v2'' (safeParse JSON_parse value2))),
            SummaryBadge (renderSummary (Some \<lparr> issues = [(), ()], driftLevel = Low \<rparr>))]"
proof (cases "JSON_parse value1")
  case (Inl m)
  then show ?thesis
    using assms(1,2) by (simp add: checkDrift_def safeParse_def Let_def)
next
  case (Inr v)
  with assms(3) obtain m where m: "JSON_parse value2 = Inl m"
    by (cases "JSON_parse value2") simp_all
  with Inr assms(1,2) show ?thesis
    by (simp add: checkDrift_def safeParse_def Let_def)
qed

section \<open>The claims\<close>

lemmas run_simps =
  compareEvents_def compareFields_object fieldIssues_def DRIFT_FIELDS_def severity_def
  issueData_def dictatedIssues_def dictated_def disagree_def

text \<open>
  Claim C1. For two records and every tracked field, taken in the order of the tracked
  field list, the comparator emits exactly the issue that the field's presence pattern
  dictates: present in \<open>A\<close> only, one issue \<open>removed\<close> with from the value of \<open>A\<close> and to
  absent; present in \<open>B\<close> only, one issue \<open>added\<close> with from absent and to the value of
  \<open>B\<close>; present in both with unequal values, one issue \<open>changed\<close> with both values;
  equal in both or absent from both, no issue. Equality is strict: the number 5 and the
  string "5" are different.
\<close>

theorem compare_emits_dictated_issues:
  "(\<exists>r. compareFields F (JSObject A) (JSObject B) = Inr r \<and>
        map issueData (issues r) = concat (map (dictatedIssues A B) F)) \<and>
   \<not> strictEquals (Some (JNumber 5)) (Some (JString ''5''))"
  by (simp add: compareFields_object all_data)

theorem compare_emits_dictated_issues_witness:
  "\<exists>r. compareFields [''score'', ''tier'', ''spend'', ''segment'']
          (JSObject [''score'' \<mapsto> JNumber 5, ''tier'' \<mapsto> JString ''Gold'', ''segment'' \<mapsto> JString ''New''])
          (JSObject [''score'' \<mapsto> JString ''5'', ''spend'' \<mapsto> JNumber 45, ''segment'' \<mapsto> JString ''New'']) = Inr r \<and>
       map issueData (issues r) =
         [(''score'', Changed, Some (JNumber 5), Some (JString ''5'')),
          (''tier'', Removed, Some (JString ''Gold''), None),
          (''spend'', Added, None, Some (JNumber 45))]"
  using compare_emits_dictated_issues
    [of "[''score'', ''tier'', ''spend'', ''segment'']"
        "[''score'' \<mapsto> JNumber 5, ''tier'' \<mapsto> JString ''Gold'', ''segment'' \<mapsto> JString ''New'']"
        "[''score'' \<mapsto> JString ''5'', ''spend'' \<mapsto> JNumber 45, ''segment'' \<mapsto> JString ''New'']"]
  by (simp add: dictatedIssues_def dictated_def)

text \<open>
  Claim C2. The report holds exactly one issue per field of the tracked list on which
  the records disagree in presence or value, and no other issue: the fields of the
  issues are the disagreeing fields of the list, their number is the number of issues,
  and a field on which the records agree has no issue.
\<close>

theorem issues_exactly_disagreeing_fields:
  "\<exists>r. compareFields F (JSObject A) (JSObject B) = Inr r \<and>
       map i_field (issues r) = filter (disagree A B) F \<and>
       length (issues r) = length (filter (disagree A B) F) \<and>
       (\<forall>f. length (filter (\<lambda>i. i_field i = f) (issues r)) =
              (if disagree A B f then count_list F f else 0))"
proof -
  let ?iss = "concat (map (fieldIssues A B) F)"
  have fields: "map i_field ?iss = filter (disagree A B) F"
    by (rule all_fields)
  have len: "length ?iss = length (filter (disagree A B) F)"
    using fields by (metis length_map)
  have cnt: "length (filter (\<lambda>i. i_field i = f) ?iss) =
             (if disagree A B f then count_list F f else 0)" for f
  proof -
    have "length (filter (\<lambda>i. i_field i = f) ?iss) =
          length (filter (\<lambda>x. x = f) (map i_field ?iss))"
      by (simp add: filter_map comp_def del: map_concat length_concat)
    also have "\<dots> = (if disagree A B f then count_list F f else 0)"
      unfolding fields by (rule count_filter)
    finally show ?thesis .
  qed
  show ?thesis
    using fields len cnt by (simp add: compareFields_object del: map_concat length_concat)
qed

theorem issues_exactly_disagreeing_fields_witness:
  "\<exists>r. compareEvents (JSObject scenario2_v1) (JSObject scenario2_v2) = Inr r \<and>
       map i_field (issues r) = [''tier'', ''score'', ''category''] \<and>
       length (issues r) = 3 \<and>
       length (filter (\<lambda>i. i_field i = ''score'') (issues r)) = 1 \<and>
       length (filter (\<lambda>i. i_field i = ''spend'') (issues r)) = 0"
proof -
  from issues_exactly_disagreeing_fields [of DRIFT_FIELDS scenario2_v1 scenario2_v2]
  obtain r where r: "compareFields DRIFT_FIELDS (JSObject scenario2_v1) (JSObject scenario2_v2) = Inr r"
    and fields: "map i_field (issues r) = filter (disagree scenario2_v1 scenario2_v2) DRIFT_FIELDS"
    and len: "length (issues r) = length (filter (disagree scenario2_v1 scenario2_v2) DRIFT_FIELDS)"
    and cnt: "\<And>f. length (filter (\<lambda>i. i_field i = f) (issues r)) =
                  (if disagree scenario2_v1 scenario2_v2 f then count_list DRIFT_FIELDS f else 0)"
    by blast
  have differing: "filter (disagree scenario2_v1 scenario2_v2) DRIFT_FIELDS = [''tier'', ''score'', ''category'']"
    by (simp add: DRIFT_FIELDS_def disagree_def scenario2_v1_def scenario2_v2_def)
  have score: "length (filter (\<lambda>i. i_field i = ''score'') (issues r)) = 1"
    unfolding cnt by (simp add: DRIFT_FIELDS_def disagree_def scenario2_v1_def scenario2_v2_def)
  have spend: "length (filter (\<lambda>i. i_field i = ''spend'') (issues r)) = 0"
    unfolding cnt by (simp add: DRIFT_FIELDS_def disagree_def scenario2_v1_def scenario2_v2_def)
  from r fields len differing score spend show ?thesis
    unfolding compareEvents_def by simp
qed

text \<open>
  Claim C3. The level is a function of the number \<open>n\<close> of issues alone: \<open>Low\<close> for
  \<open>n < 2\<close>, \<open>Medium\<close> for \<open>2 \<le> n \<le> 4\<close>, \<open>High\<close> for \<open>n > 4\<close>. The witness runs the
  comparator on records with 1, 2, 4, 5 and 0 differing fields.
\<close>

theorem level_from_issue_count:
  assumes "compareFields F v1 v2 = Inr r"
  shows "driftLevel r = severity (length (issues r)) \<and>
         (length (issues r) < 2 \<longrightarrow> driftLevel r = Low) \<and>
         (2 \<le> length (issues r) \<and> length (issues r) \<le> 4 \<longrightarrow> driftLevel r = Medium) \<and>
         (length (issues r) > 4 \<longrightarrow> driftLevel r = High)"
  using compareFields_level [OF assms] by (simp add: severity_def)

theorem level_from_issue_count_witness:
  "(\<exists>r. compareEvents (JSObject (map_of (zip (take 1 DRIFT_FIELDS) (replicate 1 JNull)))) (JSObject Map.empty) = Inr r
        \<and> length (issues r) = 1 \<and> driftLevel r = Low) \<and>
   (\<exists>r. compareEvents (JSObject (map_of (zip (take 2 DRIFT_FIELDS) (replicate 2 JNull)))) (JSObject Map.empty) = Inr r
        \<and> length (issues r) = 2 \<and> driftLevel r = Medium) \<and>
   (\<exists>r. compareEvents (JSObject (map_of (zip (take 4 DRIFT_FIELDS) (replicate 4 JNull)))) (JSObject Map.empty) = Inr r
        \<and> length (issues r) = 4 \<and> driftLevel r = Medium) \<and>
   (\<exists>r. compareEvents (JSObject (map_of (zip (take 5 DRIFT_FIELDS) (replicate 5 JNull)))) (JSObject Map.empty) = Inr r
        \<and> length (issues r) = 5 \<and> driftLevel r = High) \<and>
   (\<exists>r. compareEvents (JSObject Map.empty) (JSObject Map.empty) = Inr r
        \<and> length (issues r) = 0 \<and> driftLevel r = Low)"
proof -
  have count: "\<exists>r. compareEvents (JSObject A) (JSObject Map.empty) = Inr r \<and> length (issues r) = n \<and>
                   driftLevel r = l"
    if "length (concat (map (fieldIssues A Map.empty) DRIFT_FIELDS)) = n" and "severity n = l" for A n l
  proof -
    obtain r where r: "compareFields DRIFT_FIELDS (JSObject A) (JSObject Map.empty) = Inr r"
      by (simp add: compareFields_object)
    from compareFields_object_issues [OF r] that(1) have "length (issues r) = n" by simp
    with level_from_issue_count [OF r] that(2) r show ?thesis
      unfolding compareEvents_def by simp
  qed
  show ?thesis
    by (intro conjI count) (simp_all add: DRIFT_FIELDS_def fieldIssues_def severity_def numeral_2_eq_2 numeral_3_eq_3 eval_nat_numeral)
qed

text \<open>
  Claim C4, as amended. When both text areas are filled and \<^verbatim>\<open>JSON.parse\<close> fails on
  either, the handler sets the status \<^verbatim>\<open>JSON parsing error.\<close>, writes to the raw output
  the trimmed text \<^verbatim>\<open>Error parsing JSON:\<close> followed by one line \<^verbatim>\<open>- Event v1: ...\<close> or
  \<^verbatim>\<open>- Event v2: ...\<close> with the message of each side that failed (both lines when both
  fail), and does not call the comparator. The summary is rendered from the placeholder
  object \<^verbatim>\<open>{ issues: [{}, {}], driftLevel: "Low" }\<close>: the badge reads
  "Drift Level: Low, Issues: 2". \<^verbatim>\<open>renderDetails\<close> is not called.
\<close>

theorem parse_failure_reported:
  assumes "value1 \<noteq> []" and "value2 \<noteq> []"
    and "isl (JSON_parse value1) \<or> isl (JSON_parse value2)"
  shows "checkDrift JSON_parse value1 value2 =
           [StatusText ''JSON parsing error.'',
            RawOutputText (trim (''Error parsing JSON:'' @ nl
               @ (case JSON_parse value1 of Inl m \<Rightarrow> ''- Event v1: '' @ m @ nl | Inr v \<Rightarrow> [])
               @ (case JSON_parse value2 of Inl m \<Rightarrow> ''- Event v2: '' @ m @ nl | Inr v \<Rightarrow> []))),
            SummaryBadge
              \<lparr> className = ''summary-badge summary-badge-fail'',
                content = InnerHTML
                  (nl @ ''      Drift Level: <span class='' @ dq @ ''count'' @ dq @ ''>Low</span>'' @ nl
                      @ ''      '' @ middot @ '' Issues: <span class='' @ dq @ ''count'' @ dq @ ''>2</span>'' @ nl
                      @ ''    '') \<rparr>] \<and>
         \<not> list_ex comparatorInvoked (checkDrift JSON_parse value1 value2)"
proof -
  note run = checkDrift_parse_failure [OF assms]
  have "\<not> list_ex comparatorInvoked (checkDrift JSON_parse value1 value2)"
    unfolding run by simp
  moreover have "checkDrift JSON_parse value1 value2 =
           [StatusText ''JSON parsing error.'',
            RawOutputText (trim (''Error parsing JSON:'' @ nl
               @ (case JSON_parse value1 of Inl m \<Rightarrow> ''- Event v1: '' @ m @ nl | Inr v \<Rightarrow> [])
               @ (case JSON_parse value2 of Inl m \<Rightarrow> ''- Event v2: '' @ m @ nl | Inr v \<Rightarrow> []))),
            SummaryBadge
              \<lparr> className = ''summary-badge summary-badge-fail'',
                content = InnerHTML
                  (nl @ ''      Drift Level: <span class='' @ dq @ ''count'' @ dq @ ''>Low</span>'' @ nl
                      @ ''      '' @ middot @ '' Issues: <span class='' @ dq @ ''count'' @ dq @ ''>2</span>'' @ nl
                      @ ''    '') \<rparr>]"
    unfolding run errorLine_v1 errorLine_v2 placeholder_badge by (rule refl)
  ultimately show ?thesis by (intro conjI)
qed

theorem parse_failure_reported_witness:
  "checkDrift stub_JSON_parse ''{'' ''[1'' =
     [StatusText ''JSON parsing error.'',
      RawOutputText (''Error parsing JSON:'' @ nl
         @ ''- Event v1: Unexpected end of JSON input'' @ nl
         @ ''- Event v2: Unexpected end of JSON input''),
      SummaryBadge
        \<lparr> className = ''summary-badge summary-badge-fail'',
          content = InnerHTML
            (nl @ ''      Drift Level: <span class='' @ dq @ ''count'' @ dq @ ''>Low</span>'' @ nl
                @ ''      '' @ middot @ '' Issues: <span class='' @ dq @ ''count'' @ dq @ ''>2</span>'' @ nl
                @ ''    '') \<rparr>] \<and>
   \<not> list_ex comparatorInvoked (checkDrift stub_JSON_parse ''{'' ''[1'')"
proof -
  have ne: "''{'' \<noteq> []" "''[1'' \<noteq> []"
    by simp_all
  have fails: "isl (stub_JSON_parse ''{'') \<or> isl (stub_JSON_parse ''[1'')"
    by (simp add: stub_JSON_parse_def)
  have shown: "trim (''Error parsing JSON:'' @ nl
               @ (case stub_JSON_parse ''{'' of Inl m \<Rightarrow> ''- Event v1: '' @ m @ nl | Inr v \<Rightarrow> [])
               @ (case stub_JSON_parse ''[1'' of Inl m \<Rightarrow> ''- Event v2: '' @ m @ nl | Inr v \<Rightarrow> [])) =
             ''Error parsing JSON:'' @ nl
               @ ''- Event v1: Unexpected end of JSON input'' @ nl
               @ ''- Event v2: Unexpected end of JSON input''"
    by (simp add: stub_JSON_parse_def trim_def isWhiteSpace_def nl_def)
  from parse_failure_reported [OF ne fails] show ?thesis
    unfolding shown .
qed

text \<open>
  The claim as the specification states it asks for no fabricated report on a parse
  failure. With \<^verbatim>\<open>{\<close> in the first text area the parse fails, and the summary badge is
  the one of a report with two issues.
\<close>

theorem parse_failure_renders_placeholder_report:
  "stub_JSON_parse ''{'' = Inl ''Unexpected end of JSON input'' \<and>
   checkDrift stub_JSON_parse ''{'' ''{}'' =
     [StatusText ''JSON parsing error.'',
      RawOutputText (''Error parsing JSON:'' @ nl @ ''- Event v1: Unexpected end of JSON input''),
      SummaryBadge (renderSummary (Some \<lparr> issues = [(), ()], driftLevel = Low \<rparr>))] \<and>
   list_ex rendersReport (checkDrift stub_JSON_parse ''{'' ''{}'')"
  by (simp add: checkDrift_def safeParse_def stub_JSON_parse_def errorLine_def Let_def
      trim_def isWhiteSpace_def nl_def renderSummary_def)

text \<open>
  Claim C5. Comparing \<open>A\<close> with \<open>B\<close> and \<open>B\<close> with \<open>A\<close> gives the same number of issues
  on the same fields, in the same order; the labels \<open>added\<close> and \<open>removed\<close> are
  exchanged (and with them from and to), \<open>changed\<close> stays \<open>changed\<close>.
\<close>

theorem compare_swap_symmetric:
  "\<exists>r r'. compareFields F (JSObject A) (JSObject B) = Inr r \<and>
          compareFields F (JSObject B) (JSObject A) = Inr r' \<and>
          length (issues r') = length (issues r) \<and>
          set (map i_field (issues r')) = set (map i_field (issues r)) \<and>
          map (\<lambda>i. (i_field i, i_type i, i_from i, i_to i)) (issues r') =
            map (\<lambda>i. (i_field i, swapped (i_type i), i_to i, i_from i)) (issues r) \<and>
          driftLevel r' = driftLevel r"
proof -
  define ab where "ab = concat (map (fieldIssues A B) F)"
  define ba where "ba = concat (map (fieldIssues B A) F)"
  have swap: "map (\<lambda>i. (i_field i, i_type i, i_from i, i_to i)) ba =
              map (\<lambda>i. (i_field i, swapped (i_type i), i_to i, i_from i)) ab"
    unfolding ab_def ba_def by (rule all_swap)
  have len: "length ba = length ab"
    using arg_cong [OF swap, of length] by simp
  have fields: "map i_field ba = map i_field ab"
    using arg_cong [OF swap, of "map fst"] by (simp add: comp_def)
  have r: "compareFields F (JSObject A) (JSObject B) =
             Inr \<lparr> issues = ab, driftLevel = severity (length ab) \<rparr>"
    unfolding ab_def by (rule compareFields_object)
  have r': "compareFields F (JSObject B) (JSObject A) =
             Inr \<lparr> issues = ba, driftLevel = severity (length ba) \<rparr>"
    unfolding ba_def by (rule compareFields_object)
  have fieldset: "set (map i_field ba) = set (map i_field ab)"
    by (simp only: fields)
  show ?thesis
    unfolding r r' using swap len fieldset by (simp del: set_map)
qed

theorem compare_swap_symmetric_witness:
  "\<exists>r r'. compareEvents (JSObject [''tier'' \<mapsto> JString ''Gold'', ''score'' \<mapsto> JNumber 82])
                         (JSObject [''score'' \<mapsto> JNumber 76, ''spend'' \<mapsto> JNumber 120]) = Inr r \<and>
          compareEvents (JSObject [''score'' \<mapsto> JNumber 76, ''spend'' \<mapsto> JNumber 120])
                         (JSObject [''tier'' \<mapsto> JString ''Gold'', ''score'' \<mapsto> JNumber 82]) = Inr r' \<and>
          map (\<lambda>i. (i_field i, i_type i)) (issues r) =
            [(''tier'', Removed), (''score'', Changed), (''spend'', Added)] \<and>
          map (\<lambda>i. (i_field i, i_type i)) (issues r') =
            [(''tier'', Added), (''score'', Changed), (''spend'', Removed)]"
proof -
  let ?A = "[''tier'' \<mapsto> JString ''Gold'', ''score'' \<mapsto> JNumber 82]"
  let ?B = "[''score'' \<mapsto> JNumber 76, ''spend'' \<mapsto> JNumber 120]"
  from compare_swap_symmetric [of DRIFT_FIELDS ?A ?B]
  obtain r r' where r: "compareFields DRIFT_FIELDS (JSObject ?A) (JSObject ?B) = Inr r"
    and r': "compareFields DRIFT_FIELDS (JSObject ?B) (JSObject ?A) = Inr r'"
    and swap: "map (\<lambda>i. (i_field i, i_type i, i_from i, i_to i)) (issues r') =
               map (\<lambda>i. (i_field i, swapped (i_type i), i_to i, i_from i)) (issues r)"
    by blast
  have ab: "map (\<lambda>i. (i_field i, i_type i)) (issues r) =
              [(''tier'', Removed), (''score'', Changed), (''spend'', Added)]"
    using r by (auto simp add: compareFields_object fieldIssues_def DRIFT_FIELDS_def)
  have "map (\<lambda>i. (i_field i, i_type i)) (issues r') =
        map (\<lambda>(f, k, x, y). (f, k)) (map (\<lambda>i. (i_field i, i_type i, i_from i, i_to i)) (issues r'))"
    by (simp add: comp_def)
  also have "\<dots> = map (\<lambda>(f, k). (f, swapped k)) (map (\<lambda>i. (i_field i, i_type i)) (issues r))"
    unfolding swap by (simp add: comp_def)
  also have "\<dots> = [(''tier'', Added), (''score'', Changed), (''spend'', Removed)]"
    unfolding ab by simp
  finally show ?thesis
    using r r' ab unfolding compareEvents_def by simp
qed

text \<open>
  Claim C6. The report is a function of the tracked field list and of the values the two
  records have on the tracked fields, and of nothing else: any two calls whose records
  agree on the tracked fields (in particular two calls with identical arguments) return
  the same report, with the same issues in the same order and the same level. The
  message of every issue is \<open>messageOf\<close> of its field, kind, from and to.
\<close>

theorem report_depends_on_tracked_fields_only:
  assumes "compareFields F (JSObject A) (JSObject B) = Inr r"
  shows "(\<forall>A' B'. (\<forall>f \<in> set F. A' f = A f \<and> B' f = B f) \<longrightarrow>
            compareFields F (JSObject A') (JSObject B') = Inr r) \<and>
         (\<forall>i \<in> set (issues r).
            i_message i = messageOf (i_field i) (i_type i) (i_from i) (i_to i))"
proof (intro conjI allI impI ballI)
  fix A' B'
  assume same: "\<forall>f \<in> set F. A' f = A f \<and> B' f = B f"
  have "compareFields F (JSObject A') (JSObject B') = compareFields F (JSObject A) (JSObject B)"
    unfolding compareFields_object all_cong [OF same] by (rule refl)
  with assms show "compareFields F (JSObject A') (JSObject B') = Inr r"
    by simp
next
  fix i
  assume "i \<in> set (issues r)"
  then have "i \<in> set (concat (map (fieldIssues A B) F))"
    using compareFields_object_issues [OF assms] by simp
  then obtain f where "i \<in> set (fieldIssues A B f)"
    using in_all_fields by blast
  then show "i_message i = messageOf (i_field i) (i_type i) (i_from i) (i_to i)"
    by (rule fieldIssues_message)
qed

theorem report_depends_on_tracked_fields_only_witness:
  "\<exists>r. compareEvents (JSObject scenario2_v1) (JSObject scenario2_v2) = Inr r \<and>
       compareEvents (JSObject (scenario2_v1(''memberId'' \<mapsto> JNumber 7)))
                     (JSObject (scenario2_v2(''memberId'' \<mapsto> JNumber 8))) = Inr r \<and>
       map i_message (issues r) =
         [''Value drift in tier: v1='' @ dq @ ''Silver'' @ dq @ '' '' @ arrow @ '' v2='' @ dq @ ''Gold'' @ dq,
          ''Value drift in score: v1='' @ dq @ ''60'' @ dq @ '' '' @ arrow @ '' v2='' @ dq @ ''68'' @ dq,
          ''Value drift in category: v1='' @ dq @ ''Grocery'' @ dq @ '' '' @ arrow @ '' v2='' @ dq @ ''Grocery-Fresh'' @ dq]"
proof -
  obtain r where r: "compareFields DRIFT_FIELDS (JSObject scenario2_v1) (JSObject scenario2_v2) = Inr r"
    by (simp add: compareFields_object)
  note both = report_depends_on_tracked_fields_only [OF r]
  note stable = both [THEN conjunct1, THEN spec, THEN spec, THEN mp]
  note msgs = both [THEN conjunct2, rule_format]
  have untracked: "\<forall>f \<in> set DRIFT_FIELDS.
      (scenario2_v1(''memberId'' \<mapsto> JNumber 7)) f = scenario2_v1 f \<and>
      (scenario2_v2(''memberId'' \<mapsto> JNumber 8)) f = scenario2_v2 f"
    by (simp add: DRIFT_FIELDS_def)
  have r': "compareFields DRIFT_FIELDS (JSObject (scenario2_v1(''memberId'' \<mapsto> JNumber 7)))
              (JSObject (scenario2_v2(''memberId'' \<mapsto> JNumber 8))) = Inr r"
    by (rule stable [OF untracked])
  have data: "map issueData (issues r) =
      [(''tier'', Changed, Some (JString ''Silver''), Some (JString ''Gold'')),
       (''score'', Changed, Some (JNumber 60), Some (JNumber 68)),
       (''category'', Changed, Some (JString ''Grocery''), Some (JString ''Grocery-Fresh''))]"
    unfolding compareFields_object_issues [OF r] all_data
    by (simp add: DRIFT_FIELDS_def dictatedIssues_def dictated_def scenario2_v1_def scenario2_v2_def)
  have "map i_message (issues r) =
        map (\<lambda>i. messageOf (i_field i) (i_type i) (i_from i) (i_to i)) (issues r)"
    by (rule map_cong [OF refl msgs])
  also have "\<dots> = map (\<lambda>(f, k, x, y). messageOf f k x y) (map issueData (issues r))"
    by (simp add: issueData_def comp_def)
  also have "\<dots> =
         [''Value drift in tier: v1='' @ dq @ ''Silver'' @ dq @ '' '' @ arrow @ '' v2='' @ dq @ ''Gold'' @ dq,
          ''Value drift in score: v1='' @ dq @ ''60'' @ dq @ '' '' @ arrow @ '' v2='' @ dq @ ''68'' @ dq,
          ''Value drift in category: v1='' @ dq @ ''Grocery'' @ dq @ '' '' @ arrow @ '' v2='' @ dq @ ''Grocery-Fresh'' @ dq]"
    unfolding data
    by (simp add: messageOf_def numberToString_def natToString.simps digitChar_def)
  finally have messages: "map i_message (issues r) =
         [''Value drift in tier: v1='' @ dq @ ''Silver'' @ dq @ '' '' @ arrow @ '' v2='' @ dq @ ''Gold'' @ dq,
          ''Value drift in score: v1='' @ dq @ ''60'' @ dq @ '' '' @ arrow @ '' v2='' @ dq @ ''68'' @ dq,
          ''Value drift in category: v1='' @ dq @ ''Grocery'' @ dq @ '' '' @ arrow @ '' v2='' @ dq @ ''Grocery-Fresh'' @ dq]" .
  show ?thesis
    unfolding compareEvents_def
    by (rule exI [of _ r]) (intro conjI r r' messages)
qed

text \<open>
  Claim C7. The field names of the issues of a report are, in this order, the fields of
  \<^verbatim>\<open>DRIFT_FIELDS\<close> (partnerId, tier, segment, promoCode, campaignId, score, spend,
  currency, category) on which the two records differ.
\<close>

theorem issues_in_tracked_order:
  "\<exists>r. compareEvents (JSObject A) (JSObject B) = Inr r \<and>
       map i_field (issues r) =
         filter (disagree A B)
           [''partnerId'', ''tier'', ''segment'', ''promoCode'', ''campaignId'',
            ''score'', ''spend'', ''currency'', ''category''] \<and>
       subseq (map i_field (issues r)) DRIFT_FIELDS"
proof -
  let ?iss = "concat (map (fieldIssues A B) DRIFT_FIELDS)"
  have fields: "map i_field ?iss = filter (disagree A B) DRIFT_FIELDS"
    by (rule all_fields)
  have "subseq (map i_field ?iss) DRIFT_FIELDS"
    unfolding fields by (rule subseq_filter_left)
  with fields show ?thesis
    unfolding compareEvents_def compareFields_object
    by (simp add: DRIFT_FIELDS_def del: map_concat)
qed

text \<open>
  Claim C8. On two records (objects with scalar members) and any tracked field list the
  comparator throws nothing and returns a valid report; a tracked field missing from a
  record is reported as absent (from or to is \<^verbatim>\<open>undefined\<close>), and a field missing from
  both has no issue.
\<close>

theorem comparator_total_on_records:
  "\<exists>r. compareFields F (JSObject A) (JSObject B) = Inr r \<and>
       validReport F r \<and>
       (\<forall>i \<in> set (issues r). i_from i = A (i_field i) \<and> i_to i = B (i_field i)) \<and>
       (\<forall>f. A f = None \<and> B f = None \<longrightarrow> f \<notin> set (map i_field (issues r)))"
proof -
  define iss where "iss = concat (map (fieldIssues A B) F)"
  have r: "compareFields F (JSObject A) (JSObject B) =
             Inr \<lparr> issues = iss, driftLevel = severity (length iss) \<rparr>"
    unfolding iss_def by (rule compareFields_object)
  have fields: "map i_field iss = filter (disagree A B) F"
    unfolding iss_def by (rule all_fields)
  have each: "\<exists>f \<in> set F. i \<in> set (fieldIssues A B f)" if "i \<in> set iss" for i
    using that unfolding iss_def by (rule in_all_fields)
  have wf: "list_all wellFormed iss"
    unfolding list_all_iff using each fieldIssues_wellFormed by blast
  have sub: "set (map i_field iss) \<subseteq> set F"
    unfolding fields by simp
  have valid: "validReport F \<lparr> issues = iss, driftLevel = severity (length iss) \<rparr>"
    unfolding validReport_def using wf sub by simp
  have absent: "\<forall>i \<in> set iss. i_from i = A (i_field i) \<and> i_to i = B (i_field i)"
    using each fieldIssues_presence by blast
  have none: "\<forall>f. A f = None \<and> B f = None \<longrightarrow> f \<notin> set (map i_field iss)"
    unfolding fields by (simp add: disagree_def)
  show ?thesis
    unfolding r using valid absent none by simp
qed

theorem comparator_total_on_records_witness:
  "\<exists>r. compareEvents (JSObject Map.empty) (JSObject [''tier'' \<mapsto> JString ''Gold'']) = Inr r \<and>
       map issueData (issues r) = [(''tier'', Added, None, Some (JString ''Gold''))] \<and>
       driftLevel r = Low"
proof -
  let ?B = "[''tier'' \<mapsto> JString ''Gold'']"
  from comparator_total_on_records [of DRIFT_FIELDS Map.empty ?B]
  obtain r where both: "compareFields DRIFT_FIELDS (JSObject Map.empty) (JSObject ?B) = Inr r \<and>
      validReport DRIFT_FIELDS r"
    by (elim exE conjE) (rule that, rule conjI)
  note r = both [THEN conjunct1] and valid = both [THEN conjunct2]
  have data: "map issueData (issues r) = [(''tier'', Added, None, Some (JString ''Gold''))]"
    unfolding compareFields_object_issues [OF r] all_data
    by (simp add: DRIFT_FIELDS_def dictatedIssues_def dictated_def)
  then have "length (map issueData (issues r)) = 1"
    by simp
  then have "length (issues r) = 1"
    by simp
  with valid have "driftLevel r = Low"
    by (simp add: validReport_def severity_def)
  with r data show ?thesis
    unfolding compareEvents_def by (intro exI [of _ r] conjI)
qed

text \<open>
  Claim C9. Scenario 1 yields exactly five issues, one \<open>changed\<close> issue for each of
  partnerId, tier, promoCode, score and category, and the level \<open>High\<close>.
\<close>

theorem scenario1_five_changes_high:
  "\<exists>r. compareEvents (JSObject scenario1_v1) (JSObject scenario1_v2) = Inr r \<and>
       map issueData (issues r) =
         [(''partnerId'', Changed, Some (JString ''PartnerA''), Some (JString ''partner-a'')),
          (''tier'', Changed, Some (JString ''Gold''), Some (JString ''Platinum'')),
          (''promoCode'', Changed, Some (JString ''SPRING10''), Some (JString ''SPRING20'')),
          (''score'', Changed, Some (JNumber 82), Some (JNumber 76)),
          (''category'', Changed, Some (JString ''Electronics''), Some (JString ''Electronics-Devices''))] \<and>
       length (issues r) = 5 \<and>
       driftLevel r = High"
  by (simp add: run_simps scenario1_v1_def scenario1_v2_def)

text \<open>
  Claim C10. Every issue of a report is well-formed: \<open>removed\<close> has to absent, \<open>added\<close>
  has from absent, \<open>changed\<close> has both present and different, and its field is a
  tracked field; over a tracked field list without repetition (as \<^verbatim>\<open>DRIFT_FIELDS\<close> is)
  no field name occurs in two issues.
\<close>

theorem issues_well_formed:
  assumes "compareFields F v1 v2 = Inr r"
  shows "(\<forall>i \<in> set (issues r).
            (i_type i = Removed \<longrightarrow> i_to i = None) \<and>
            (i_type i = Added \<longrightarrow> i_from i = None) \<and>
            (i_type i = Changed \<longrightarrow> i_from i \<noteq> None \<and> i_to i \<noteq> None \<and> i_from i \<noteq> i_to i) \<and>
            i_field i \<in> set F) \<and>
         (distinct F \<longrightarrow> distinct (map i_field (issues r)))"
proof -
  from compareFields_Inr_cases [OF assms]
  consider (none) "F = []" | (objects) A B where "v1 = JSObject A" "v2 = JSObject B"
    by blast
  then show ?thesis
  proof cases
    case none
    with assms have "issues r = []"
      by (auto simp add: compareFields_Nil)
    then show ?thesis by simp
  next
    case objects
    with assms have r: "compareFields F (JSObject A) (JSObject B) = Inr r"
      by simp
    note iss = compareFields_object_issues [OF r]
    have fields: "map i_field (issues r) = filter (disagree A B) F"
      unfolding iss by (rule all_fields)
    have one: "wellFormed i \<and> i_field i \<in> set F" if "i \<in> set (issues r)" for i
    proof -
      from that obtain f where f: "f \<in> set F" "i \<in> set (fieldIssues A B f)"
        unfolding iss using in_all_fields by blast
      with fieldIssues_wellFormed fieldIssues_presence show ?thesis
        by blast
    qed
    have kinds: "(i_type i = Removed \<longrightarrow> i_to i = None) \<and>
                 (i_type i = Added \<longrightarrow> i_from i = None) \<and>
                 (i_type i = Changed \<longrightarrow> i_from i \<noteq> None \<and> i_to i \<noteq> None \<and> i_from i \<noteq> i_to i)"
      if "wellFormed i" for i
      using that by (cases "i_type i") (simp_all add: wellFormed_def)
    have "distinct (map i_field (issues r))" if "distinct F"
      unfolding fields using that by (rule distinct_filter)
    with one kinds show ?thesis
      by blast
  qed
qed

theorem issues_well_formed_witness:
  "distinct DRIFT_FIELDS \<and>
   (\<exists>r. compareEvents (JSObject [''tier'' \<mapsto> JString ''Gold'', ''score'' \<mapsto> JNumber 82])
                       (JSObject [''score'' \<mapsto> JNumber 76, ''spend'' \<mapsto> JNumber 120]) = Inr r \<and>
        map issueData (issues r) =
          [(''tier'', Removed, Some (JString ''Gold''), None),
           (''score'', Changed, Some (JNumber 82), Some (JNumber 76)),
           (''spend'', Added, None, Some (JNumber 120))] \<and>
        distinct (map i_field (issues r)) \<and>
        list_all (\<lambda>i. i_field i \<in> set DRIFT_FIELDS) (issues r))"
proof -
  let ?A = "[''tier'' \<mapsto> JString ''Gold'', ''score'' \<mapsto> JNumber 82]"
  let ?B = "[''score'' \<mapsto> JNumber 76, ''spend'' \<mapsto> JNumber 120]"
  have d: "distinct DRIFT_FIELDS"
    by (simp add: DRIFT_FIELDS_def)
  obtain r where r: "compareFields DRIFT_FIELDS (JSObject ?A) (JSObject ?B) = Inr r"
    by (simp add: compareFields_object)
  note wf = issues_well_formed [OF r]
  from wf d have dist: "distinct (map i_field (issues r))"
    by (rule conjunct2 [THEN mp])
  have tracked: "list_all (\<lambda>i. i_field i \<in> set DRIFT_FIELDS) (issues r)"
    unfolding list_all_iff
  proof
    fix i
    assume "i \<in> set (issues r)"
    from wf [THEN conjunct1, THEN bspec, OF this]
    show "i_field i \<in> set DRIFT_FIELDS"
      by (elim conjE)
  qed
  have data: "map issueData (issues r) =
          [(''tier'', Removed, Some (JString ''Gold''), None),
           (''score'', Changed, Some (JNumber 82), Some (JNumber 76)),
           (''spend'', Added, None, Some (JNumber 120))]"
    unfolding compareFields_object_issues [OF r] all_data
    by (simp add: DRIFT_FIELDS_def dictatedIssues_def dictated_def)
  show ?thesis
    unfolding compareEvents_def
    by (intro conjI d exI [of _ r] r data dist tracked)
qed

end
